theory Spec2Isabelle
  imports Complex_Main
begin

section \<open>Strings of the front end\<close>

text \<open>
  A string is a list of code units. The model covers the code units below 256
  (ASCII and Latin-1), which is what an Isabelle \<open>char\<close> holds; text with code
  units beyond that range is outside the model.

  \<open>String.prototype.toLowerCase\<close> on that range adds 32 to the capital letters
  \<open>A\<close>..\<open>Z\<close> (65..90) and to the capital Latin-1 letters 192..222, the
  multiplication sign 215 excepted, and leaves every other code unit as it is.
\<close>

definition toLowerCase_char :: "char \<Rightarrow> char" where
  "toLowerCase_char c =
     (let n = (of_char c :: nat)
      in if (65 \<le> n \<and> n \<le> 90) \<or> (192 \<le> n \<and> n \<le> 222 \<and> n \<noteq> 215)
         then char_of (n + 32) else c)"

definition toLowerCase :: "string \<Rightarrow> string" where
  "toLowerCase s = map toLowerCase_char s"

text \<open>
  \<open>s.includes(search)\<close>: the search string occurs in \<open>s\<close> at some position.
  \<open>startsWith\<close> compares at the current position, \<open>includes_str\<close> tries every
  position from the left. The empty search string is found in every string.
\<close>

fun startsWith :: "string \<Rightarrow> string \<Rightarrow> bool" where
  "startsWith s [] = True"
| "startsWith [] (k # ks) = False"
| "startsWith (c # cs) (k # ks) = (c = k \<and> startsWith cs ks)"

fun includes_str :: "string \<Rightarrow> string \<Rightarrow> bool" where
  "includes_str [] search = (search = [])"
| "includes_str (c # cs) search = (startsWith (c # cs) search \<or> includes_str cs search)"

text \<open>
  \<open>String.prototype.trim\<close> removes white space and line terminators from both
  ends. Below 256 these are tab, line feed, vertical tab, form feed, carriage
  return (9..13), space (32) and the no-break space (160).
\<close>

definition isWhiteSpace :: "char \<Rightarrow> bool" where
  "isWhiteSpace c = (let n = (of_char c :: nat) in (9 \<le> n \<and> n \<le> 13) \<or> n = 32 \<or> n = 160)"

definition trim :: "string \<Rightarrow> string" where
  "trim s = rev (dropWhile isWhiteSpace (rev (dropWhile isWhiteSpace s)))"


section \<open>ChatPage.tsx\<close>

text \<open>The keyword list is the literal of \<open>checkSafetyKeywords\<close>.\<close>

definition safetyKeywords :: "string list" where
  "safetyKeywords =
     [''harm myself'', ''suicide'', ''kill myself'', ''hurt myself'', ''want to die'']"

text \<open>The test that \<open>checkSafetyKeywords\<close> applies to one keyword.\<close>

definition keywordMatches :: "string \<Rightarrow> string \<Rightarrow> bool" where
  "keywordMatches text keyword = includes_str (toLowerCase text) (toLowerCase keyword)"

text \<open>\<open>safetyKeywords.some(keyword => ...)\<close>: some keyword of the list matches.\<close>

definition checkSafetyKeywords :: "string \<Rightarrow> bool" where
  "checkSafetyKeywords text = list_ex (keywordMatches text) safetyKeywords"

text \<open>
  The state of the page that \<open>onSubmit\<close> touches: the private-mode switch, whether a
  send is pending, and the requests handed to \<open>sendMutation.mutate\<close> so far.
\<close>

record send_request =
  req_message :: string
  req_isPrivate :: bool

record chat_page =
  isPrivateMode :: bool
  isPending :: bool
  sent :: "send_request list"

definition sendMutation_mutate :: "chat_page \<Rightarrow> send_request \<Rightarrow> chat_page" where
  "sendMutation_mutate st r = st\<lparr>isPending := True, sent := sent st @ [r]\<rparr>"

text \<open>
  \<open>if (!data.message.trim()) return\<close>: the empty string is the only falsy string,
  so the handler returns when the trimmed message is empty; otherwise it sends the
  message as typed, with the current private-mode switch.
\<close>

definition onSubmit :: "chat_page \<Rightarrow> string \<Rightarrow> chat_page" where
  "onSubmit st data_message =
     (if trim data_message = [] then st
      else sendMutation_mutate st
             \<lparr>req_message = data_message, req_isPrivate = isPrivateMode st\<rparr>)"

text \<open>\<open>disabled={!messageValue.trim() || sendMutation.isPending}\<close> of the submit button.\<close>

definition submitDisabled :: "chat_page \<Rightarrow> string \<Rightarrow> bool" where
  "submitDisabled st messageValue = (trim messageValue = [] \<or> isPending st)"


section \<open>ProtectedRoute.tsx and App.tsx\<close>

text \<open>
  Of the auth store the guard reads \<open>user\<close> (which may be null) and
  \<open>isAuthenticated\<close>; of the user it reads the role. The role is kept a string, as
  \<open>allowedRoles\<close> is a string array compared with \<open>includes\<close>.
\<close>

record User =
  user_id :: nat
  full_name :: string
  role :: string

record AuthState =
  user :: "User option"
  isAuthenticated :: bool

text \<open>What a route element renders to: a redirect, the access-denied view, or the
  guarded content. The user is read only after the test that it is present.\<close>

datatype 'a element = Navigate string | AccessDenied | Children 'a

definition ProtectedRoute :: "AuthState \<Rightarrow> string list \<Rightarrow> 'a \<Rightarrow> 'a element" where
  "ProtectedRoute st allowedRoles children =
     (if \<not> isAuthenticated st \<or> user st = None then Navigate ''/login''
      else if \<not> List.member allowedRoles (role (the (user st))) then AccessDenied
      else Children children)"

datatype page =
  LoginPage | DashboardPage | AssignmentsPage | ChatPage | StudentsPage
  | RiskDashboardPage | AdminPage

text \<open>
  The current location, by the route pattern of the authenticated app that it
  matches; \<open>R_other\<close> is the wildcard \<open>*\<close>. Matching a location against the
  patterns is the router's work and is not modelled.
\<close>

datatype route =
  R_root | R_dashboard | R_assignments | R_chat | R_students | R_risk | R_admin
  | R_login | R_other

fun App_routes :: "AuthState \<Rightarrow> route \<Rightarrow> page element" where
  "App_routes st R_root = Navigate ''/dashboard''"
| "App_routes st R_dashboard = Children DashboardPage"
| "App_routes st R_assignments = Children AssignmentsPage"
| "App_routes st R_chat = ProtectedRoute st [''student''] ChatPage"
| "App_routes st R_students =
     ProtectedRoute st [''teacher'', ''mentor'', ''counselor'', ''admin''] StudentsPage"
| "App_routes st R_risk =
     ProtectedRoute st [''teacher'', ''mentor'', ''counselor'', ''admin''] RiskDashboardPage"
| "App_routes st R_admin = ProtectedRoute st [''admin''] AdminPage"
| "App_routes st R_login = Navigate ''/dashboard''"
| "App_routes st R_other = Navigate ''/dashboard''"

text \<open>
  Without authentication the app has two routes only: the login page, and a wildcard
  that redirects to it. With authentication the routes above apply; the layout
  around them is left out.
\<close>

definition App :: "AuthState \<Rightarrow> route \<Rightarrow> page element" where
  "App st r =
     (if \<not> isAuthenticated st
      then (if r = R_login then Children LoginPage else Navigate ''/login'')
      else App_routes st r)"


section \<open>StudentsPage.tsx\<close>

text \<open>
  A student as the list query returns it. The page reads the fields through optional
  chaining, so the user, its full name, the student id, the current risk score and
  its level may each be missing (\<open>None\<close> for \<open>undefined\<close>).
\<close>

record student_user =
  su_full_name :: "string option"

record student_risk =
  risk_level :: "string option"

record student =
  s_user :: "student_user option"
  student_id :: "string option"
  current_risk_score :: "student_risk option"

text \<open>
  \<open>student.user?.full_name?.toLowerCase().includes(searchTerm.toLowerCase())\<close>: the
  chain is \<open>undefined\<close> as soon as a link is missing, a boolean otherwise.
\<close>

definition nameIncludes :: "student \<Rightarrow> string \<Rightarrow> bool option" where
  "nameIncludes s searchTerm =
     (case s_user s of
        None \<Rightarrow> None
      | Some u \<Rightarrow>
          (case su_full_name u of
             None \<Rightarrow> None
           | Some n \<Rightarrow> Some (includes_str (toLowerCase n) (toLowerCase searchTerm))))"

definition idIncludes :: "student \<Rightarrow> string \<Rightarrow> bool option" where
  "idIncludes s searchTerm =
     (case student_id s of
        None \<Rightarrow> None
      | Some i \<Rightarrow> Some (includes_str (toLowerCase i) (toLowerCase searchTerm)))"

text \<open>\<open>a || b\<close> is \<open>a\<close> when \<open>a\<close> is truthy and \<open>b\<close> otherwise; \<open>true\<close> is the only
  truthy value among \<open>true\<close>, \<open>false\<close> and \<open>undefined\<close>.\<close>

definition truthy :: "bool option \<Rightarrow> bool" where
  "truthy v = (v = Some True)"

definition js_or :: "bool option \<Rightarrow> bool option \<Rightarrow> bool option" where
  "js_or a b = (if truthy a then a else b)"

definition matchesSearch :: "student \<Rightarrow> string \<Rightarrow> bool option" where
  "matchesSearch s searchTerm = js_or (nameIncludes s searchTerm) (idIncludes s searchTerm)"

text \<open>
  \<open>!selectedRisk || student.current_risk_score?.risk_level === selectedRisk\<close>: the
  empty string is the falsy selection; strict equality with a missing level is false.
\<close>

definition matchesRisk :: "student \<Rightarrow> string \<Rightarrow> bool" where
  "matchesRisk s selectedRisk =
     (selectedRisk = [] \<or>
      (case current_risk_score s of
         None \<Rightarrow> False
       | Some r \<Rightarrow> risk_level r = Some selectedRisk))"

text \<open>\<open>students?.filter(...)\<close>: undefined while the query has no data.\<close>

definition filteredStudents :: "student list option \<Rightarrow> string \<Rightarrow> string \<Rightarrow> student list option" where
  "filteredStudents students searchTerm selectedRisk =
     map_option
       (filter (\<lambda>s. truthy (matchesSearch s searchTerm) \<and> matchesRisk s selectedRisk))
       students"


section \<open>AdminPage.tsx: the cleanup button\<close>

text \<open>
  A chat message with the fields the pages read (\<open>id\<close>, \<open>user_id\<close>, \<open>message\<close>,
  \<open>flagged_for_sos\<close>, \<open>created_at\<close>) and the privacy flag it is sent with. The
  creation time is counted in days.
\<close>

record ChatMessage =
  msg_id :: nat
  msg_user_id :: nat
  msg_text :: string
  is_private :: bool
  flagged_for_sos :: bool
  created_at :: nat

text \<open>The server's chat store and the current day.\<close>

record chat_store =
  messages :: "ChatMessage list"
  today :: nat

datatype toast = Toast_success string | Toast_error string

text \<open>
  \<open>cleanupMutation\<close>: \<open>mutationFn: () => chatApi.getMessages()\<close>, then the toast of
  \<open>onSuccess\<close> or of \<open>onError\<close>. The request is a parameter: it answers with a
  message list or fails (\<open>None\<close>), and returns the store as it leaves it. The
  fetched list is not used.
\<close>

definition cleanupMutation ::
  "(chat_store \<Rightarrow> ChatMessage list option \<times> chat_store) \<Rightarrow> chat_store \<Rightarrow> toast \<times> chat_store" where
  "cleanupMutation getMessages srv =
     (case getMessages srv of
        (Some _, srv') \<Rightarrow> (Toast_success ''Expired messages cleaned up'', srv')
      | (None, srv') \<Rightarrow> (Toast_error ''Failed to cleanup messages'', srv'))"

text \<open>Modelled from the spec: \<open>chatApi.getMessages\<close> belongs to \<open>lib/api\<close>, which is
  not among the sources. It is the persistence collaborator's read of the chat
  messages, which \<open>ChatPage\<close> uses as the query of its message list: it answers with
  the stored messages, or fails, and leaves the store as it is. The flag \<open>ok\<close> says
  whether the request succeeds.\<close>

definition chatApi_getMessages :: "bool \<Rightarrow> chat_store \<Rightarrow> ChatMessage list option \<times> chat_store" where
  "chatApi_getMessages ok srv = (if ok then Some (messages srv) else None, srv)"

text \<open>
  What the button's caption promises (``Remove chat messages older than 15 days
  (except flagged ones)''): a message is due for removal when it is not flagged and
  older than the window.
\<close>

definition expired :: "nat \<Rightarrow> nat \<Rightarrow> ChatMessage \<Rightarrow> bool" where
  "expired window now m = (\<not> flagged_for_sos m \<and> created_at m + window < now)"


section \<open>RiskScorer\<close>

text \<open>
  The scoring engine runs on the server, whose code is not among the sources; the
  pages only display its results. Its definitions follow the specification, with
  exact rational arithmetic.
\<close>

text \<open>Modelled from the spec: the three risk levels.\<close>

datatype RiskLevel = Red | Amber | Green

text \<open>Modelled from the spec: the configuration the scorer consumes (score weights,
  risk thresholds), the overdue amount at which the fee component reaches 0, and
  the normalisation rule of the chat component. The specification names the chat
  signal (count of chat flags) and the range of its score and gives no rule for it,
  so the rule is a parameter.\<close>

record ScorerConfig =
  w_attendance :: rat
  w_test :: rat
  w_fee :: rat
  w_chat :: rat
  green_threshold :: rat
  amber_threshold :: rat
  fee_threshold :: rat
  chat_rule :: "nat \<Rightarrow> rat"

text \<open>Modelled from the spec: a student's signal snapshot (attendance as present days
  of total days, normalised academic performance, overdue fee amount, count of chat
  flags).\<close>

record SignalSnapshot =
  present_days :: nat
  total_days :: nat
  academic :: rat
  overdue_amount :: rat
  chat_flags :: nat

text \<open>Modelled from the spec: the RiskScore of the data model.\<close>

record RiskScore =
  attendance_score :: rat
  test_score :: rat
  fee_score :: rat
  chat_score :: rat
  overall_score :: rat
  level :: RiskLevel
  calculated_at :: nat

text \<open>Modelled from the spec: clipping to the interval from 0 to 1.\<close>

definition clip01 :: "rat \<Rightarrow> rat" where
  "clip01 x = max 0 (min 1 x)"

text \<open>Modelled from the spec: ``attendance score = present-days / total-days''.\<close>

definition attendance_component :: "SignalSnapshot \<Rightarrow> rat" where
  "attendance_component snap = of_nat (present_days snap) / of_nat (total_days snap)"

text \<open>Modelled from the spec: the academic component is the normalised academic
  performance of the snapshot.\<close>

definition test_component :: "SignalSnapshot \<Rightarrow> rat" where
  "test_component snap = academic snap"

text \<open>Modelled from the spec: ``fee score = 1 - min(1, overdue-amount/threshold)''.\<close>

definition fee_component :: "ScorerConfig \<Rightarrow> SignalSnapshot \<Rightarrow> rat" where
  "fee_component cfg snap = 1 - min 1 (overdue_amount snap / fee_threshold cfg)"

text \<open>Modelled from the spec: the chat component is the configured rule applied to the
  count of chat flags.\<close>

definition chat_component :: "ScorerConfig \<Rightarrow> SignalSnapshot \<Rightarrow> rat" where
  "chat_component cfg snap = chat_rule cfg (chat_flags snap)"

text \<open>Modelled from the spec: ``combine via a fixed weight vector into an overall
  score''.\<close>

definition weighted_sum :: "ScorerConfig \<Rightarrow> rat \<Rightarrow> rat \<Rightarrow> rat \<Rightarrow> rat \<Rightarrow> rat" where
  "weighted_sum cfg a t f c =
     w_attendance cfg * a + w_test cfg * t + w_fee cfg * f + w_chat cfg * c"

text \<open>Modelled from the spec: ``overall >= green-threshold -> green; >= amber-threshold
  -> amber; else red''.\<close>

definition classify :: "ScorerConfig \<Rightarrow> rat \<Rightarrow> RiskLevel" where
  "classify cfg s =
     (if green_threshold cfg \<le> s then Green
      else if amber_threshold cfg \<le> s then Amber
      else Red)"

text \<open>Modelled from the spec: the order of the levels, red below amber below green.\<close>

fun level_rank :: "RiskLevel \<Rightarrow> nat" where
  "level_rank Red = 0"
| "level_rank Amber = 1"
| "level_rank Green = 2"

text \<open>Modelled from the spec: scoring one student. A snapshot without attendance
  records is a failure with the reason the specification's scenario gives, and no
  score is made up for it; otherwise the four clipped components, their weighted sum
  and its level make the RiskScore.\<close>

definition compute_risk :: "ScorerConfig \<Rightarrow> nat \<Rightarrow> SignalSnapshot \<Rightarrow> string + RiskScore" where
  "compute_risk cfg now snap =
     (if total_days snap = 0 then Inl ''missing attendance data''
      else
        let a = clip01 (attendance_component snap);
            t = clip01 (test_component snap);
            f = clip01 (fee_component cfg snap);
            c = clip01 (chat_component cfg snap);
            overall = weighted_sum cfg a t f c
        in Inr \<lparr>attendance_score = a, test_score = t, fee_score = f, chat_score = c,
                overall_score = overall, level = classify cfg overall,
                calculated_at = now\<rparr>)"

text \<open>Modelled from the spec: a configuration is well formed when no weight is
  negative, the weights sum to 1, and the fee threshold is positive.\<close>

definition valid_config :: "ScorerConfig \<Rightarrow> bool" where
  "valid_config cfg =
     (0 \<le> w_attendance cfg \<and> 0 \<le> w_test cfg \<and> 0 \<le> w_fee cfg \<and> 0 \<le> w_chat cfg \<and>
      w_attendance cfg + w_test cfg + w_fee cfg + w_chat cfg = 1 \<and>
      0 < fee_threshold cfg)"

text \<open>Modelled from the spec: the configuration and the snapshot of the scoring
  scenario (weights 0.3, 0.3, 0.2, 0.2; green from 0.75, amber from 0.5; attendance 18
  of 20, academic 0.82, no overdue fees, no chat flags). The scenario gives neither
  the fee threshold, which does not enter the result when nothing is overdue, nor
  the chat rule, which stays a parameter.\<close>

definition scenario_config :: "(nat \<Rightarrow> rat) \<Rightarrow> ScorerConfig" where
  "scenario_config rule =
     \<lparr>w_attendance = 3/10, w_test = 3/10, w_fee = 2/10, w_chat = 2/10,
      green_threshold = 75/100, amber_threshold = 5/10,
      fee_threshold = 1000, chat_rule = rule\<rparr>"

text \<open>A chat rule for the examples: the full score without a flag, and a fifth less
  for every flag.\<close>

definition example_chat_rule :: "nat \<Rightarrow> rat" where
  "example_chat_rule n = 1 - min 1 (of_nat n / 5)"

definition scenario_snapshot :: SignalSnapshot where
  "scenario_snapshot =
     \<lparr>present_days = 18, total_days = 20, academic = 82/100, overdue_amount = 0,
      chat_flags = 0\<rparr>"


section \<open>Batch recomputation\<close>

text \<open>Modelled from the spec: a student as the batch driver reads it from the
  persistence collaborator.\<close>

record scored_student =
  st_id :: nat
  st_active :: bool
  st_signals :: SignalSnapshot

text \<open>Modelled from the spec: the report of the batch. The count of successes has the
  name under which \<open>RiskDashboardPage\<close> reads it (\<open>data.calculated_count\<close>); the
  count of failures and the reasons per student are the specification's.\<close>

record batch_report =
  calculated_count :: nat
  failed_count :: nat
  failures :: "(nat \<times> string) list"

text \<open>Modelled from the spec: the persisted scores, one RiskScore by student id.\<close>

type_synonym score_store = "nat \<rightharpoonup> RiskScore"

text \<open>Modelled from the spec: one pass over the students. A success is persisted at
  once, superseding the student's prior score, and counted; a failure is counted and
  recorded with its reason, and the pass goes on.\<close>

fun recompute_loop ::
  "ScorerConfig \<Rightarrow> nat \<Rightarrow> scored_student list \<Rightarrow> score_store \<times> batch_report
     \<Rightarrow> score_store \<times> batch_report" where
  "recompute_loop cfg now [] acc = acc"
| "recompute_loop cfg now (s # ss) (store, rep) =
     (case compute_risk cfg now (st_signals s) of
        Inr r \<Rightarrow>
          recompute_loop cfg now ss
            (store(st_id s \<mapsto> r), rep\<lparr>calculated_count := calculated_count rep + 1\<rparr>)
      | Inl reason \<Rightarrow>
          recompute_loop cfg now ss
            (store, rep\<lparr>failed_count := failed_count rep + 1,
                        failures := failures rep @ [(st_id s, reason)]\<rparr>))"

text \<open>Modelled from the spec: ``recompute all'' runs the pass over the active students,
  starting from an empty report.\<close>

definition recompute_all ::
  "ScorerConfig \<Rightarrow> nat \<Rightarrow> scored_student list \<Rightarrow> score_store \<Rightarrow> score_store \<times> batch_report" where
  "recompute_all cfg now students store =
     recompute_loop cfg now (filter st_active students)
       (store, \<lparr>calculated_count = 0, failed_count = 0, failures = []\<rparr>)"


section \<open>SafetyMonitor\<close>

text \<open>Modelled from the spec: the status of an incident.\<close>

datatype incident_status = Open | Acknowledged | Resolved

text \<open>Modelled from the spec: the SOSIncident of the data model.\<close>

record SOSIncident =
  inc_student :: nat
  trigger_keywords :: "string list"
  inc_status :: incident_status
  counselor_notified :: bool
  inc_notes :: "string option"
  inc_created_at :: nat

text \<open>Modelled from the spec: the keywords of the configured list that match the text,
  by the case-insensitive substring test of \<open>checkSafetyKeywords\<close>.\<close>

definition matched_keywords :: "string list \<Rightarrow> string \<Rightarrow> string list" where
  "matched_keywords kws text = filter (keywordMatches text) kws"

text \<open>Modelled from the spec: the server-side monitor, which is not among the sources.
  On a match the message is marked flagged and an open incident with the matched
  keywords is created for the sender; without a match the message and the incidents
  are returned as they came.\<close>

definition safety_monitor ::
  "string list \<Rightarrow> nat \<Rightarrow> SOSIncident list \<Rightarrow> ChatMessage \<Rightarrow> ChatMessage \<times> SOSIncident list" where
  "safety_monitor kws now incidents m =
     (let matched = matched_keywords kws (msg_text m)
      in if matched = [] then (m, incidents)
         else (m\<lparr>flagged_for_sos := True\<rparr>,
               incidents @
                 [\<lparr>inc_student = msg_user_id m, trigger_keywords = matched,
                   inc_status = Open, counselor_notified = False, inc_notes = None,
                   inc_created_at = now\<rparr>]))"


section \<open>Substring search and lowercasing\<close>

text \<open>\<open>startsWith\<close> and \<open>includes_str\<close> decide the existence of a decomposition.\<close>

lemma startsWith_iff: "startsWith s k \<longleftrightarrow> (\<exists>r. s = k @ r)"
  by (induction s k rule: startsWith.induct) auto

lemma includes_str_iff: "includes_str s k \<longleftrightarrow> (\<exists>p r. s = p @ k @ r)"
proof (induction s)
  case Nil
  then show ?case by auto
next
  case (Cons c cs)
  show ?case
  proof
    assume "includes_str (c # cs) k"
    then consider "startsWith (c # cs) k" | "includes_str cs k" by auto
    then show "\<exists>p r. c # cs = p @ k @ r"
    proof cases
      case 1
      then obtain r where "c # cs = k @ r" using startsWith_iff by blast
      then have "c # cs = [] @ k @ r" by simp
      then show ?thesis by blast
    next
      case 2
      then obtain p r where "cs = p @ k @ r" using Cons.IH by blast
      then have "c # cs = (c # p) @ k @ r" by simp
      then show ?thesis by blast
    qed
  next
    assume "\<exists>p r. c # cs = p @ k @ r"
    then obtain p r where e: "c # cs = p @ k @ r" by blast
    show "includes_str (c # cs) k"
    proof (cases p)
      case Nil
      with e have "startsWith (c # cs) k" using startsWith_iff by auto
      then show ?thesis by simp
    next
      case (Cons a p')
      with e have "cs = p' @ k @ r" by simp
      then have "includes_str cs k" using Cons.IH by blast
      then show ?thesis by simp
    qed
  qed
qed

text \<open>Lowercasing works code unit by code unit.\<close>

lemma toLowerCase_append: "toLowerCase (a @ b) = toLowerCase a @ toLowerCase b"
  by (simp add: toLowerCase_def)

lemma lower_die: "toLowerCase ''die'' = ''die''"
  by (simp add: toLowerCase_def toLowerCase_char_def)

lemma lower_want: "toLowerCase ''I want to DIE'' = ''i want to die''"
  by code_simp

lemma lower_want_to_die: "toLowerCase ''want to die'' = ''want to die''"
  by code_simp


section \<open>The safety-keyword check of the chat page\<close>

text \<open>
  C1. The safety-keyword check is case-insensitive and substring-based: it answers
  true exactly when the lowercased text contains the lowercased form of some keyword
  of the list, that is, when the lowercased text is some prefix, the lowercased
  keyword, and some suffix. In particular every message that contains
  ``I want to DIE'' matches the keyword ``die'' under this test, and the check
  answers true for it (the list holds ``want to die'').
\<close>

theorem checkSafetyKeywords_substring:
  "(checkSafetyKeywords text \<longleftrightarrow>
      (\<exists>keyword \<in> set safetyKeywords. \<exists>p r. toLowerCase text = p @ toLowerCase keyword @ r))
   \<and> keywordMatches (before @ ''I want to DIE'' @ after) ''die''
   \<and> checkSafetyKeywords (before @ ''I want to DIE'' @ after)"
proof (intro conjI)
  show "checkSafetyKeywords text \<longleftrightarrow>
      (\<exists>keyword \<in> set safetyKeywords. \<exists>p r. toLowerCase text = p @ toLowerCase keyword @ r)"
    by (simp add: checkSafetyKeywords_def keywordMatches_def list_ex_iff includes_str_iff)
next
  have e: "toLowerCase (before @ ''I want to DIE'' @ after)
        = toLowerCase before @ ''i want to die'' @ toLowerCase after"
    by (simp only: toLowerCase_append lower_want)
  have "toLowerCase before @ ''i want to die'' @ toLowerCase after
        = (toLowerCase before @ ''i want to '') @ ''die'' @ toLowerCase after"
    by simp
  then show "keywordMatches (before @ ''I want to DIE'' @ after) ''die''"
    unfolding keywordMatches_def includes_str_iff lower_die e by blast
next
  have e: "toLowerCase (before @ ''I want to DIE'' @ after)
        = toLowerCase before @ ''i want to die'' @ toLowerCase after"
    by (simp only: toLowerCase_append lower_want)
  have "toLowerCase before @ ''i want to die'' @ toLowerCase after
        = (toLowerCase before @ ''i '') @ ''want to die'' @ toLowerCase after"
    by simp
  then have "keywordMatches (before @ ''I want to DIE'' @ after) ''want to die''"
    unfolding keywordMatches_def includes_str_iff lower_want_to_die e by blast
  then show "checkSafetyKeywords (before @ ''I want to DIE'' @ after)"
    by (simp add: checkSafetyKeywords_def safetyKeywords_def)
qed

theorem checkSafetyKeywords_substring_witness:
  "checkSafetyKeywords ''I want to DIE'' \<and> keywordMatches ''I want to DIE'' ''die''
   \<and> \<not> checkSafetyKeywords ''good morning''"
proof -
  have "\<not> checkSafetyKeywords ''good morning''"
    by code_simp
  then show ?thesis
    using checkSafetyKeywords_substring [of "''good morning''" "[]" "[]"] by simp
qed



section \<open>Blank messages\<close>

text \<open>The trimmed string is empty exactly when every code unit is white space.\<close>

lemma dropWhile_all_iff:
  "(\<forall>c \<in> set (dropWhile P s). P c) \<longleftrightarrow> (\<forall>c \<in> set s. P c)"
proof
  assume a: "\<forall>c \<in> set (dropWhile P s). P c"
  have "dropWhile P s = []"
  proof (rule ccontr)
    assume n: "dropWhile P s \<noteq> []"
    then have "\<not> P (hd (dropWhile P s))"
      by (rule hd_dropWhile)
    moreover from n have "hd (dropWhile P s) \<in> set (dropWhile P s)"
      by (rule hd_in_set)
    ultimately show False using a by blast
  qed
  then show "\<forall>c \<in> set s. P c"
    by (simp only: dropWhile_eq_Nil_conv)
next
  assume "\<forall>c \<in> set s. P c"
  then show "\<forall>c \<in> set (dropWhile P s). P c"
    by (blast dest: set_dropWhileD)
qed

lemma trim_empty_iff: "trim s = [] \<longleftrightarrow> list_all isWhiteSpace s"
  by (simp only: trim_def rev_is_Nil_conv dropWhile_eq_Nil_conv set_rev
        dropWhile_all_iff list_all_iff)

text \<open>
  C9. A message that is empty or consists of white space only is never sent: the
  submit handler returns the page state as it was, so nothing is handed to the send
  operation, and the submit button is disabled for such input.
\<close>

theorem onSubmit_blank_not_sent:
  assumes "list_all isWhiteSpace data_message"
  shows "onSubmit st data_message = st \<and> sent (onSubmit st data_message) = sent st
         \<and> submitDisabled st data_message"
proof -
  from assms have "trim data_message = []"
    by (simp add: trim_empty_iff)
  then show ?thesis
    by (simp add: onSubmit_def submitDisabled_def)
qed

theorem onSubmit_blank_not_sent_witness:
  "onSubmit \<lparr>isPrivateMode = True, isPending = False, sent = []\<rparr> [CHR '' '', CHR 0x09, CHR 0xA0]
     = \<lparr>isPrivateMode = True, isPending = False, sent = []\<rparr>
   \<and> submitDisabled \<lparr>isPrivateMode = True, isPending = False, sent = []\<rparr>
        [CHR '' '', CHR 0x09, CHR 0xA0]
   \<and> onSubmit \<lparr>isPrivateMode = True, isPending = False, sent = []\<rparr> []
     = \<lparr>isPrivateMode = True, isPending = False, sent = []\<rparr>"
proof -
  have a: "list_all isWhiteSpace [CHR '' '', CHR 0x09, CHR 0xA0]"
    by (simp add: isWhiteSpace_def)
  have b: "list_all isWhiteSpace []"
    by simp
  show ?thesis
    using onSubmit_blank_not_sent [OF a] onSubmit_blank_not_sent [OF b] by simp
qed

text \<open>Any other message is handed to the send operation as typed.\<close>

lemma onSubmit_sends:
  "\<not> list_all isWhiteSpace data_message \<Longrightarrow>
     sent (onSubmit st data_message)
       = sent st @ [\<lparr>req_message = data_message, req_isPrivate = isPrivateMode st\<rparr>]"
  by (simp add: onSubmit_def trim_empty_iff sendMutation_mutate_def)


section \<open>The route guard\<close>

text \<open>
  C8. A guarded route renders its content exactly when the store is authenticated
  and holds a user whose role is in the allowed list. Without authentication, or
  without a user, the guard redirects to the login route; an authenticated user
  with a role outside the list gets the access-denied view. In the app, the chat
  page is rendered exactly on the chat route for an authenticated user with role
  student.
\<close>

theorem ProtectedRoute_guard:
  "(ProtectedRoute st allowedRoles children = Children children \<longleftrightarrow>
      isAuthenticated st \<and> (\<exists>u. user st = Some u \<and> role u \<in> set allowedRoles))
   \<and> (\<not> isAuthenticated st \<or> user st = None \<longrightarrow>
        ProtectedRoute st allowedRoles children = Navigate ''/login'')
   \<and> (\<forall>u. isAuthenticated st \<and> user st = Some u \<and> role u \<notin> set allowedRoles \<longrightarrow>
        ProtectedRoute st allowedRoles children = AccessDenied)
   \<and> (App st r = Children ChatPage \<longleftrightarrow>
        r = R_chat \<and> isAuthenticated st \<and> (\<exists>u. user st = Some u \<and> role u = ''student''))"
proof (intro conjI)
  show "ProtectedRoute st allowedRoles children = Children children \<longleftrightarrow>
      isAuthenticated st \<and> (\<exists>u. user st = Some u \<and> role u \<in> set allowedRoles)"
    by (cases "isAuthenticated st"; cases "user st")
       (simp_all add: ProtectedRoute_def)
  show "\<not> isAuthenticated st \<or> user st = None \<longrightarrow>
        ProtectedRoute st allowedRoles children = Navigate ''/login''"
    by (cases "isAuthenticated st"; cases "user st") (simp_all add: ProtectedRoute_def)
  show "\<forall>u. isAuthenticated st \<and> user st = Some u \<and> role u \<notin> set allowedRoles \<longrightarrow>
        ProtectedRoute st allowedRoles children = AccessDenied"
    by (simp add: ProtectedRoute_def)
  show "App st r = Children ChatPage \<longleftrightarrow>
        r = R_chat \<and> isAuthenticated st \<and> (\<exists>u. user st = Some u \<and> role u = ''student'')"
    by (cases r; cases "isAuthenticated st"; cases "user st")
       (simp_all add: App_def ProtectedRoute_def)
qed

theorem ProtectedRoute_guard_witness:
  "App \<lparr>user = Some \<lparr>user_id = 1, full_name = ''Asha'', role = ''student''\<rparr>,
        isAuthenticated = True\<rparr> R_chat = Children ChatPage
   \<and> ProtectedRoute \<lparr>user = Some \<lparr>user_id = 2, full_name = ''Ravi'', role = ''teacher''\<rparr>,
        isAuthenticated = True\<rparr> [''student''] ChatPage = AccessDenied
   \<and> ProtectedRoute \<lparr>user = None, isAuthenticated = False\<rparr> [''student''] ChatPage
        = Navigate ''/login''"
  using
    ProtectedRoute_guard [of "\<lparr>user = Some \<lparr>user_id = 1, full_name = ''Asha'', role = ''student''\<rparr>,
        isAuthenticated = True\<rparr>" "[''student'']" ChatPage R_chat]
    ProtectedRoute_guard [of "\<lparr>user = Some \<lparr>user_id = 2, full_name = ''Ravi'', role = ''teacher''\<rparr>,
        isAuthenticated = True\<rparr>" "[''student'']" ChatPage R_chat]
    ProtectedRoute_guard [of "\<lparr>user = None, isAuthenticated = False\<rparr>" "[''student'']" ChatPage R_chat]
  by simp


section \<open>The filter of the students list\<close>

text \<open>The two tests of the filter, read as conditions on the student.\<close>

lemma truthy_matchesSearch:
  "truthy (matchesSearch s searchTerm) \<longleftrightarrow>
     (\<exists>u n. s_user s = Some u \<and> su_full_name u = Some n \<and>
            (\<exists>p q. toLowerCase n = p @ toLowerCase searchTerm @ q))
     \<or> (\<exists>i. student_id s = Some i \<and> (\<exists>p q. toLowerCase i = p @ toLowerCase searchTerm @ q))"
  by (auto simp: matchesSearch_def js_or_def truthy_def nameIncludes_def idIncludes_def
        includes_str_iff split: option.splits)

lemma matchesRisk_iff:
  "matchesRisk s selectedRisk \<longleftrightarrow>
     selectedRisk = [] \<or> (\<exists>r. current_risk_score s = Some r \<and> risk_level r = Some selectedRisk)"
  by (auto simp: matchesRisk_def split: option.splits)

text \<open>
  C10. With the list loaded, a student is in the filtered list exactly when it is in
  the list, the lowercased search term is a substring of its lowercased full name
  or of its lowercased student id (a missing name or id contains nothing), and
  either no risk level is selected or its current risk level is the selected one.
\<close>

theorem filteredStudents_sound:
  "\<exists>shown. filteredStudents (Some students) searchTerm selectedRisk = Some shown \<and>
     (\<forall>s. s \<in> set shown \<longleftrightarrow>
        s \<in> set students
        \<and> ((\<exists>u n. s_user s = Some u \<and> su_full_name u = Some n \<and>
                  (\<exists>p q. toLowerCase n = p @ toLowerCase searchTerm @ q))
           \<or> (\<exists>i. student_id s = Some i \<and>
                  (\<exists>p q. toLowerCase i = p @ toLowerCase searchTerm @ q)))
        \<and> (selectedRisk = []
           \<or> (\<exists>r. current_risk_score s = Some r \<and> risk_level r = Some selectedRisk)))"
  unfolding filteredStudents_def
  by (simp only: option.map set_filter mem_Collect_eq truthy_matchesSearch matchesRisk_iff
        option.inject simp_thms ex_simps)

theorem filteredStudents_sound_witness:
  "\<exists>shown.
     filteredStudents
       (Some [\<lparr>s_user = Some \<lparr>su_full_name = Some ''Asha Rao''\<rparr>, student_id = Some ''STU001'',
               current_risk_score = Some \<lparr>risk_level = Some ''red''\<rparr>\<rparr>,
              \<lparr>s_user = None, student_id = Some ''STU002'', current_risk_score = None\<rparr>])
       ''ASHA'' ''red'' = Some shown
     \<and> \<lparr>s_user = Some \<lparr>su_full_name = Some ''Asha Rao''\<rparr>, student_id = Some ''STU001'',
         current_risk_score = Some \<lparr>risk_level = Some ''red''\<rparr>\<rparr> \<in> set shown
     \<and> \<lparr>s_user = None, student_id = Some ''STU002'', current_risk_score = None\<rparr> \<notin> set shown"
proof -
  let ?a = "\<lparr>s_user = Some \<lparr>su_full_name = Some ''Asha Rao''\<rparr>, student_id = Some ''STU001'',
             current_risk_score = Some \<lparr>risk_level = Some ''red''\<rparr>\<rparr>"
  let ?b = "\<lparr>s_user = None, student_id = Some ''STU002'', current_risk_score = None\<rparr>"
  from filteredStudents_sound [of "[?a, ?b]" "''ASHA''" "''red''"]
  obtain shown where
    eq: "filteredStudents (Some [?a, ?b]) ''ASHA'' ''red'' = Some shown" and
    mem: "\<And>s. s \<in> set shown \<longleftrightarrow>
        s \<in> set [?a, ?b]
        \<and> ((\<exists>u n. s_user s = Some u \<and> su_full_name u = Some n \<and>
                  (\<exists>p q. toLowerCase n = p @ toLowerCase ''ASHA'' @ q))
           \<or> (\<exists>i. student_id s = Some i \<and>
                  (\<exists>p q. toLowerCase i = p @ toLowerCase ''ASHA'' @ q)))
        \<and> (''red'' = []
           \<or> (\<exists>r. current_risk_score s = Some r \<and> risk_level r = Some ''red''))"
    by blast
  have "includes_str (toLowerCase ''Asha Rao'') (toLowerCase ''ASHA'')"
    by code_simp
  then have "\<exists>p q. toLowerCase ''Asha Rao'' = p @ toLowerCase ''ASHA'' @ q"
    by (simp only: includes_str_iff)
  then have "?a \<in> set shown"
    by (simp add: mem)
  moreover have "?b \<notin> set shown"
    by (simp add: mem)
  ultimately show ?thesis
    using eq by blast
qed



section \<open>The overall score and its level\<close>

text \<open>Clipped components and their weighted sum stay between 0 and 1.\<close>

lemma clip01_range: "0 \<le> clip01 x \<and> clip01 x \<le> 1"
  by (simp add: clip01_def)

lemma weighted_sum_range:
  assumes "valid_config cfg"
    and "0 \<le> a" "a \<le> 1" "0 \<le> t" "t \<le> 1" "0 \<le> f" "f \<le> 1" "0 \<le> c" "c \<le> 1"
  shows "0 \<le> weighted_sum cfg a t f c \<and> weighted_sum cfg a t f c \<le> 1"
proof -
  from assms(1) have w: "0 \<le> w_attendance cfg" "0 \<le> w_test cfg" "0 \<le> w_fee cfg"
    "0 \<le> w_chat cfg" "w_attendance cfg + w_test cfg + w_fee cfg + w_chat cfg = 1"
    by (simp_all add: valid_config_def)
  have lo: "0 \<le> w_attendance cfg * a" "0 \<le> w_test cfg * t" "0 \<le> w_fee cfg * f"
    "0 \<le> w_chat cfg * c"
    using w assms by simp_all
  have hi: "w_attendance cfg * a \<le> w_attendance cfg" "w_test cfg * t \<le> w_test cfg"
    "w_fee cfg * f \<le> w_fee cfg" "w_chat cfg * c \<le> w_chat cfg"
    using w assms by (simp_all add: mult_left_le)
  show ?thesis
    unfolding weighted_sum_def using lo hi w(5) by linarith
qed

text \<open>
  C3. For a well-formed configuration and every snapshot with attendance records,
  scoring succeeds; the four component scores are the clipped components, the
  overall score is their weighted sum under the configured weights, the weights sum
  to 1, and the overall score lies between 0 and 1. The overall score is thus a
  function of the four component scores and the weights alone.
\<close>

theorem overall_weighted_sum:
  assumes "valid_config cfg" and "total_days snap \<noteq> 0"
  shows "\<exists>r. compute_risk cfg now snap = Inr r
          \<and> attendance_score r = clip01 (attendance_component snap)
          \<and> test_score r = clip01 (test_component snap)
          \<and> fee_score r = clip01 (fee_component cfg snap)
          \<and> chat_score r = clip01 (chat_component cfg snap)
          \<and> overall_score r =
                w_attendance cfg * attendance_score r + w_test cfg * test_score r
                + w_fee cfg * fee_score r + w_chat cfg * chat_score r
          \<and> w_attendance cfg + w_test cfg + w_fee cfg + w_chat cfg = 1
          \<and> 0 \<le> overall_score r \<and> overall_score r \<le> 1"
proof -
  let ?a = "clip01 (attendance_component snap)"
  let ?t = "clip01 (test_component snap)"
  let ?f = "clip01 (fee_component cfg snap)"
  let ?c = "clip01 (chat_component cfg snap)"
  let ?r = "\<lparr>attendance_score = ?a, test_score = ?t, fee_score = ?f, chat_score = ?c,
             overall_score = weighted_sum cfg ?a ?t ?f ?c,
             level = classify cfg (weighted_sum cfg ?a ?t ?f ?c), calculated_at = now\<rparr>"
  have eq: "compute_risk cfg now snap = Inr ?r"
    using assms(2) by (simp add: compute_risk_def Let_def)
  have rng: "0 \<le> weighted_sum cfg ?a ?t ?f ?c \<and> weighted_sum cfg ?a ?t ?f ?c \<le> 1"
    using assms(1) clip01_range by (intro weighted_sum_range) simp_all
  have sum1: "w_attendance cfg + w_test cfg + w_fee cfg + w_chat cfg = 1"
    using assms(1) by (simp add: valid_config_def)
  show ?thesis
    using eq rng sum1 by (simp add: weighted_sum_def)
qed

text \<open>The scoring scenario, evaluated.\<close>

lemma scenario_valid: "valid_config (scenario_config rule)"
  by (simp add: valid_config_def scenario_config_def)

lemma scenario_result:
  "compute_risk (scenario_config rule) now scenario_snapshot =
     Inr \<lparr>attendance_score = 9/10, test_score = 82/100, fee_score = 1,
          chat_score = clip01 (rule 0),
          overall_score = 716/1000 + clip01 (rule 0) / 5,
          level = classify (scenario_config rule) (716/1000 + clip01 (rule 0) / 5),
          calculated_at = now\<rparr>"
proof -
  have a: "clip01 (attendance_component scenario_snapshot) = 9/10"
    and t: "clip01 (test_component scenario_snapshot) = 82/100"
    and f: "clip01 (fee_component (scenario_config rule) scenario_snapshot) = 1"
    by (simp_all add: attendance_component_def test_component_def fee_component_def
          scenario_snapshot_def clip01_def)
  have c: "chat_component (scenario_config rule) scenario_snapshot = rule 0"
    by (simp add: chat_component_def scenario_config_def scenario_snapshot_def)
  have w: "weighted_sum (scenario_config rule) (9/10) (82/100) 1 x = 716/1000 + x / 5" for x
    by (simp add: weighted_sum_def scenario_config_def)
  have d: "total_days scenario_snapshot \<noteq> 0"
    by (simp add: scenario_snapshot_def)
  show ?thesis
    using d by (simp only: compute_risk_def Let_def a t f c w if_False)
qed

lemma scenario_example:
  "compute_risk (scenario_config example_chat_rule) now scenario_snapshot =
     Inr \<lparr>attendance_score = 9/10, test_score = 82/100, fee_score = 1, chat_score = 1,
          overall_score = 916/1000, level = Green, calculated_at = now\<rparr>"
proof -
  have c: "clip01 (example_chat_rule 0) = 1"
    by (simp add: example_chat_rule_def clip01_def)
  have g: "classify (scenario_config example_chat_rule) (916/1000) = Green"
    by (simp add: classify_def scenario_config_def)
  have "(716/1000 + 1/5 :: rat) = 916/1000"
    by simp
  with g show ?thesis
    by (simp only: scenario_result c div_by_1)
qed

theorem overall_weighted_sum_witness:
  "valid_config (scenario_config example_chat_rule) \<and> total_days scenario_snapshot \<noteq> 0
   \<and> (\<exists>r. compute_risk (scenario_config example_chat_rule) 0 scenario_snapshot = Inr r
          \<and> overall_score r =
               w_attendance (scenario_config example_chat_rule) * attendance_score r
               + w_test (scenario_config example_chat_rule) * test_score r
               + w_fee (scenario_config example_chat_rule) * fee_score r
               + w_chat (scenario_config example_chat_rule) * chat_score r
          \<and> 0 \<le> overall_score r \<and> overall_score r \<le> 1)"
proof -
  have t: "total_days scenario_snapshot \<noteq> 0"
    by (simp add: scenario_snapshot_def)
  from overall_weighted_sum [OF scenario_valid [of example_chat_rule] t, of 0] show ?thesis
    using scenario_valid t by blast
qed

text \<open>
  C4. The level is a threshold function of the overall score: green from the green
  threshold on, otherwise amber from the amber threshold on, otherwise red. It is
  monotone: of two scores the lower one never gets the better level, in the order
  red, amber, green.
\<close>

theorem classify_monotone:
  "(classify cfg s = Green \<longleftrightarrow> green_threshold cfg \<le> s)
   \<and> (classify cfg s = Amber \<longleftrightarrow> \<not> green_threshold cfg \<le> s \<and> amber_threshold cfg \<le> s)
   \<and> (classify cfg s = Red \<longleftrightarrow> \<not> green_threshold cfg \<le> s \<and> \<not> amber_threshold cfg \<le> s)
   \<and> (s1 \<le> s2 \<longrightarrow> level_rank (classify cfg s1) \<le> level_rank (classify cfg s2))"
  by (auto simp: classify_def)

theorem classify_monotone_witness:
  "classify (scenario_config example_chat_rule) (4/10) = Red
   \<and> classify (scenario_config example_chat_rule) (5/10) = Amber
   \<and> classify (scenario_config example_chat_rule) (75/100) = Green
   \<and> level_rank (classify (scenario_config example_chat_rule) (5/10))
       \<le> level_rank (classify (scenario_config example_chat_rule) (75/100))"
  using classify_monotone [of "scenario_config example_chat_rule" "4/10" "5/10" "75/100"]
    classify_monotone [of "scenario_config example_chat_rule" "5/10" "5/10" "75/100"]
    classify_monotone [of "scenario_config example_chat_rule" "75/100" "5/10" "75/100"]
  by (simp add: scenario_config_def)

text \<open>
  The scoring scenario. Its overall score is 0.27 + 0.246 + 0.2 = 0.716 plus a fifth
  of the chat score of a student without chat flags, whatever the chat rule and the
  fee threshold are. It is 0.846 exactly when that chat score is 0.65, and 0.916
  when it is 1; the level is green exactly when that chat score is at least 0.17.
\<close>

lemma fee_component_nothing_overdue:
  "overdue_amount snap = 0 \<Longrightarrow> fee_component cfg snap = 1"
  by (simp add: fee_component_def)

lemma scenario_overall_0846_iff:
  "overall_score (projr (compute_risk (scenario_config rule) now scenario_snapshot)) = 846/1000
     \<longleftrightarrow> clip01 (rule 0) = 65/100"
  by (auto simp: scenario_result)

lemma scenario_overall_0916_iff:
  "overall_score (projr (compute_risk (scenario_config rule) now scenario_snapshot)) = 916/1000
     \<longleftrightarrow> clip01 (rule 0) = 1"
  by (auto simp: scenario_result)

lemma scenario_green_iff:
  "level (projr (compute_risk (scenario_config rule) now scenario_snapshot)) = Green
     \<longleftrightarrow> 17/100 \<le> clip01 (rule 0)"
proof -
  have "level (projr (compute_risk (scenario_config rule) now scenario_snapshot))
        = classify (scenario_config rule) (716/1000 + clip01 (rule 0) / 5)"
    by (simp add: scenario_result)
  also have "\<dots> = Green \<longleftrightarrow> 17/100 \<le> clip01 (rule 0)"
    by (simp add: classify_def scenario_config_def)
  finally show ?thesis .
qed


section \<open>Recompute all\<close>

text \<open>
  The report after a pass: the counts grow by the numbers of successes and failures
  among the students of the pass, and the failures are appended in order.
\<close>

lemma loop_report:
  "snd (recompute_loop cfg now ss (store, rep)) =
     rep\<lparr>calculated_count := calculated_count rep
            + length (filter (\<lambda>s. \<not> isl (compute_risk cfg now (st_signals s))) ss),
          failed_count := failed_count rep
            + length (filter (\<lambda>s. isl (compute_risk cfg now (st_signals s))) ss),
          failures := failures rep
            @ map (\<lambda>s. (st_id s, projl (compute_risk cfg now (st_signals s))))
                (filter (\<lambda>s. isl (compute_risk cfg now (st_signals s))) ss)\<rparr>"
proof (induction ss arbitrary: store rep)
  case Nil
  then show ?case by simp
next
  case (Cons s ss)
  show ?case
  proof (cases "compute_risk cfg now (st_signals s)")
    case (Inl e)
    then show ?thesis by (simp add: Cons.IH)
  next
    case (Inr r)
    then show ?thesis by (simp add: Cons.IH)
  qed
qed

text \<open>
  The store after a pass: an id whose students all fail keeps its prior entry; with
  distinct ids, a student that succeeds has its new score stored.
\<close>

lemma loop_store_untouched:
  "\<forall>s \<in> set ss. st_id s = i \<longrightarrow> isl (compute_risk cfg now (st_signals s)) \<Longrightarrow>
     fst (recompute_loop cfg now ss (store, rep)) i = store i"
proof (induction ss arbitrary: store rep)
  case Nil
  then show ?case by simp
next
  case (Cons s ss)
  show ?case
  proof (cases "compute_risk cfg now (st_signals s)")
    case (Inl e)
    with Cons show ?thesis by simp
  next
    case (Inr r)
    with Cons.prems have "st_id s \<noteq> i" by auto
    with Inr Cons show ?thesis by simp
  qed
qed

lemma loop_store_persisted:
  "distinct (map st_id ss) \<Longrightarrow> s \<in> set ss \<Longrightarrow> compute_risk cfg now (st_signals s) = Inr r \<Longrightarrow>
     fst (recompute_loop cfg now ss (store, rep)) (st_id s) = Some r"
proof (induction ss arbitrary: store rep)
  case Nil
  then show ?case by simp
next
  case (Cons x xs)
  show ?case
  proof (cases "s = x")
    case True
    from Cons.prems(1) have "st_id x \<notin> st_id ` set xs" by simp
    then have "\<forall>y \<in> set xs. st_id y \<noteq> st_id x" by (auto simp: image_iff)
    then have "\<And>st rp. fst (recompute_loop cfg now xs (st, rp)) (st_id x) = st (st_id x)"
      by (intro loop_store_untouched) simp
    with True Cons.prems(3) show ?thesis by simp
  next
    case False
    with Cons.prems have "s \<in> set xs" "distinct (map st_id xs)" by simp_all
    then have "\<And>st rp. fst (recompute_loop cfg now xs (st, rp)) (st_id s) = Some r"
      using Cons.IH Cons.prems(3) by blast
    then show ?thesis
      by (cases "compute_risk cfg now (st_signals x)") simp_all
  qed
qed

text \<open>
  C5. With distinct student ids, ``recompute all'' returns a store and a report such
  that every active student is counted exactly once, as a success or as a failure;
  a failure does not stop the pass; the report holds the count of successes, the
  count of failures and one reason per failed student; the score of every active
  student that succeeds is persisted, whatever fails elsewhere; a student that
  fails, and every id that is not an active student's, keeps its prior entry.
\<close>

theorem recompute_all_partial_failures:
  assumes "distinct (map st_id students)"
  shows "\<exists>store' rep.
     recompute_all cfg now students store = (store', rep)
     \<and> calculated_count rep + failed_count rep = length (filter st_active students)
     \<and> calculated_count rep =
         length (filter (\<lambda>s. st_active s \<and> \<not> isl (compute_risk cfg now (st_signals s))) students)
     \<and> failed_count rep = length (failures rep)
     \<and> failures rep =
         map (\<lambda>s. (st_id s, projl (compute_risk cfg now (st_signals s))))
           (filter (\<lambda>s. st_active s \<and> isl (compute_risk cfg now (st_signals s))) students)
     \<and> (\<forall>s r. s \<in> set students \<and> st_active s \<and> compute_risk cfg now (st_signals s) = Inr r
            \<longrightarrow> store' (st_id s) = Some r)
     \<and> (\<forall>s e. s \<in> set students \<and> st_active s \<and> compute_risk cfg now (st_signals s) = Inl e
            \<longrightarrow> store' (st_id s) = store (st_id s))
     \<and> (\<forall>i. i \<notin> st_id ` {s \<in> set students. st_active s} \<longrightarrow> store' i = store i)"
proof -
  let ?act = "filter st_active students"
  let ?rep0 = "\<lparr>calculated_count = 0, failed_count = 0, failures = []\<rparr>"
  let ?res = "recompute_loop cfg now ?act (store, ?rep0)"
  let ?fails = "\<lambda>s. isl (compute_risk cfg now (st_signals s))"
  have d: "distinct (map st_id ?act)"
    using assms by (rule distinct_map_filter)
  have rep: "snd ?res =
     \<lparr>calculated_count = length (filter (\<lambda>s. \<not> ?fails s) ?act),
      failed_count = length (filter ?fails ?act),
      failures = map (\<lambda>s. (st_id s, projl (compute_risk cfg now (st_signals s))))
                   (filter ?fails ?act)\<rparr>"
    by (simp add: loop_report)
  have c: "calculated_count (snd ?res) = length (filter (\<lambda>s. \<not> ?fails s) ?act)"
    and f: "failed_count (snd ?res) = length (filter ?fails ?act)"
    by (simp_all only: rep batch_report.simps)
  have 1: "calculated_count (snd ?res) + failed_count (snd ?res) = length ?act"
    using sum_length_filter_compl [of ?fails ?act] by (simp only: c f add.commute)
  have 2: "calculated_count (snd ?res) =
         length (filter (\<lambda>s. st_active s \<and> \<not> ?fails s) students)"
    unfolding rep by (simp add: conj_commute)
  have 3: "failed_count (snd ?res) = length (failures (snd ?res))"
    unfolding rep by simp
  have 4: "failures (snd ?res) =
         map (\<lambda>s. (st_id s, projl (compute_risk cfg now (st_signals s))))
           (filter (\<lambda>s. st_active s \<and> ?fails s) students)"
    unfolding rep by (simp add: conj_commute)
  have 5: "\<forall>s r. s \<in> set students \<and> st_active s \<and> compute_risk cfg now (st_signals s) = Inr r
            \<longrightarrow> fst ?res (st_id s) = Some r"
    using loop_store_persisted [OF d] by simp
  have 6: "\<forall>s e. s \<in> set students \<and> st_active s \<and> compute_risk cfg now (st_signals s) = Inl e
            \<longrightarrow> fst ?res (st_id s) = store (st_id s)"
  proof (intro allI impI)
    fix s e
    assume a: "s \<in> set students \<and> st_active s \<and> compute_risk cfg now (st_signals s) = Inl e"
    have "\<forall>y \<in> set ?act. st_id y = st_id s \<longrightarrow> ?fails y"
    proof (intro ballI impI)
      fix y assume y: "y \<in> set ?act" "st_id y = st_id s"
      with a assms have "y = s"
        by (auto simp: distinct_map dest: inj_onD)
      with a show "?fails y" by simp
    qed
    then show "fst ?res (st_id s) = store (st_id s)"
      by (rule loop_store_untouched)
  qed
  have 7: "\<forall>i. i \<notin> st_id ` {s \<in> set students. st_active s} \<longrightarrow> fst ?res i = store i"
    by (auto intro!: loop_store_untouched)
  have "recompute_all cfg now students store = (fst ?res, snd ?res)"
    by (simp add: recompute_all_def)
  with 1 2 3 4 5 6 7 show ?thesis by blast
qed

text \<open>The batch scenario: three students, the second without attendance records.\<close>

lemma no_attendance_fails:
  "compute_risk cfg now (snap\<lparr>total_days := 0\<rparr>) = Inl ''missing attendance data''"
  by (simp add: compute_risk_def)

theorem recompute_all_partial_failures_witness:
  "\<exists>store' rep.
     recompute_all (scenario_config example_chat_rule) 0
       [\<lparr>st_id = 1, st_active = True, st_signals = scenario_snapshot\<rparr>,
        \<lparr>st_id = 2, st_active = True, st_signals = scenario_snapshot\<lparr>total_days := 0\<rparr>\<rparr>,
        \<lparr>st_id = 3, st_active = True, st_signals = scenario_snapshot\<rparr>]
       Map.empty = (store', rep)
     \<and> calculated_count rep = 2 \<and> failed_count rep = 1
     \<and> failures rep = [(2, ''missing attendance data'')]
     \<and> map_option overall_score (store' 1) = Some (916/1000)
     \<and> store' 2 = None
     \<and> map_option level (store' 3) = Some Green"
proof -
  let ?s1 = "\<lparr>st_id = 1, st_active = True, st_signals = scenario_snapshot\<rparr>"
  let ?s2 = "\<lparr>st_id = 2, st_active = True, st_signals = scenario_snapshot\<lparr>total_days := 0\<rparr>\<rparr>"
  let ?s3 = "\<lparr>st_id = 3, st_active = True, st_signals = scenario_snapshot\<rparr>"
  let ?ok = "\<lparr>attendance_score = 9/10, test_score = 82/100, fee_score = 1, chat_score = 1,
          overall_score = 229/250, level = Green, calculated_at = 0\<rparr>"
  have d: "distinct (map st_id [?s1, ?s2, ?s3])"
    by simp
  have c1: "compute_risk (scenario_config example_chat_rule) 0 (st_signals ?s1) = Inr ?ok"
    and c3: "compute_risk (scenario_config example_chat_rule) 0 (st_signals ?s3) = Inr ?ok"
    by (simp_all add: scenario_example)
  have c2: "compute_risk (scenario_config example_chat_rule) 0 (st_signals ?s2) = Inl ''missing attendance data''"
    by (simp add: no_attendance_fails)
  from recompute_all_partial_failures [OF d, of "scenario_config example_chat_rule" 0 Map.empty]
  obtain store' rep where
    eq: "recompute_all (scenario_config example_chat_rule) 0 [?s1, ?s2, ?s3] Map.empty = (store', rep)" and
    cnt: "calculated_count rep =
         length (filter (\<lambda>s. st_active s \<and> \<not> isl (compute_risk (scenario_config example_chat_rule) 0 (st_signals s)))
           [?s1, ?s2, ?s3])" and
    fc: "failed_count rep = length (failures rep)" and
    fl: "failures rep =
         map (\<lambda>s. (st_id s, projl (compute_risk (scenario_config example_chat_rule) 0 (st_signals s))))
           (filter (\<lambda>s. st_active s \<and> isl (compute_risk (scenario_config example_chat_rule) 0 (st_signals s)))
             [?s1, ?s2, ?s3])" and
    ok: "\<And>s r. s \<in> set [?s1, ?s2, ?s3] \<and> st_active s
            \<and> compute_risk (scenario_config example_chat_rule) 0 (st_signals s) = Inr r
            \<Longrightarrow> store' (st_id s) = Some r" and
    bad: "\<And>s e. s \<in> set [?s1, ?s2, ?s3] \<and> st_active s
            \<and> compute_risk (scenario_config example_chat_rule) 0 (st_signals s) = Inl e
            \<Longrightarrow> store' (st_id s) = Map.empty (st_id s)"
    by blast
  have "calculated_count rep = 2"
    unfolding cnt by (simp add: scenario_example no_attendance_fails)
  moreover have f: "failures rep = [(2, ''missing attendance data'')]"
    unfolding fl by (simp add: scenario_example no_attendance_fails)
  moreover have "failed_count rep = 1"
    unfolding fc f by simp
  moreover have "store' 1 = Some ?ok"
    using ok [of ?s1 ?ok] c1 by simp
  moreover have "store' 3 = Some ?ok"
    using ok [of ?s3 ?ok] c3 by simp
  moreover have "store' 2 = None"
    using bad [of ?s2 "''missing attendance data''"] c2 by simp
  ultimately show ?thesis
    using eq by simp
qed


section \<open>The cleanup button of the admin page\<close>

text \<open>The cleanup action changes the store no more than its request does, and the
  request is a read.\<close>

lemma cleanupMutation_store: "snd (cleanupMutation getMessages srv) = snd (getMessages srv)"
  by (simp add: cleanupMutation_def split: prod.splits option.splits)

lemma cleanupMutation_read: "snd (cleanupMutation (chatApi_getMessages ok) srv) = srv"
  by (simp add: cleanupMutation_store chatApi_getMessages_def)

text \<open>
  C6. The cleanup action of the admin page does not do what its caption says: on
  day 30, with a window of 15 days, a message of day 0 that is not flagged is due
  for removal, and the action reports ``Expired messages cleaned up'' while the
  message is still in the store.
\<close>

theorem cleanupMutation_keeps_expired:
  "cleanupMutation (chatApi_getMessages True)
     \<lparr>messages = [\<lparr>msg_id = 1, msg_user_id = 7, msg_text = ''see you tomorrow'',
                   is_private = True, flagged_for_sos = False, created_at = 0\<rparr>],
      today = 30\<rparr>
   = (Toast_success ''Expired messages cleaned up'',
      \<lparr>messages = [\<lparr>msg_id = 1, msg_user_id = 7, msg_text = ''see you tomorrow'',
                    is_private = True, flagged_for_sos = False, created_at = 0\<rparr>],
       today = 30\<rparr>)
   \<and> expired 15 30 \<lparr>msg_id = 1, msg_user_id = 7, msg_text = ''see you tomorrow'',
                     is_private = True, flagged_for_sos = False, created_at = 0\<rparr>"
  by (simp add: cleanupMutation_def chatApi_getMessages_def expired_def)


section \<open>Messages without a match\<close>

text \<open>
  The empty text matches no keyword but the empty one, and the check of the chat
  page is true exactly when some keyword of its list is matched.
\<close>

lemma matched_keywords_empty_text: "[] \<notin> set kws \<Longrightarrow> matched_keywords kws [] = []"
  by (induction kws) (auto simp: matched_keywords_def keywordMatches_def toLowerCase_def)

lemma checkSafetyKeywords_matched:
  "checkSafetyKeywords text \<longleftrightarrow> matched_keywords safetyKeywords text \<noteq> []"
  by (simp add: checkSafetyKeywords_def matched_keywords_def list_ex_iff filter_empty_conv)

text \<open>
  C7. A message whose text matches no keyword passes the monitor without an error
  and without any change: the monitor returns the message and the incidents as they
  came, so no incident is created and the flagged-for-SOS marker keeps its value,
  false for a new message. The empty text is such a message whenever the empty
  string is not a keyword. On the chat page the check answers false for the empty
  text, the submit handler does not send it, and a text for which the check answers
  false matches no keyword of its list.
\<close>

theorem safety_monitor_no_match:
  "(matched_keywords kws (msg_text m) = [] \<longrightarrow>
      safety_monitor kws now incidents m = (m, incidents)
      \<and> flagged_for_sos (fst (safety_monitor kws now incidents m)) = flagged_for_sos m)
   \<and> ([] \<notin> set kws \<and> msg_text m = [] \<longrightarrow> safety_monitor kws now incidents m = (m, incidents))
   \<and> \<not> checkSafetyKeywords []
   \<and> onSubmit st [] = st
   \<and> (\<not> checkSafetyKeywords (msg_text m) \<longrightarrow>
        safety_monitor safetyKeywords now incidents m = (m, incidents))"
proof (intro conjI impI)
  assume "matched_keywords kws (msg_text m) = []"
  then show "safety_monitor kws now incidents m = (m, incidents)"
    by (simp add: safety_monitor_def)
  then show "flagged_for_sos (fst (safety_monitor kws now incidents m)) = flagged_for_sos m"
    by simp
next
  assume "[] \<notin> set kws \<and> msg_text m = []"
  then show "safety_monitor kws now incidents m = (m, incidents)"
    by (simp add: safety_monitor_def matched_keywords_empty_text)
next
  have "[] \<notin> set safetyKeywords"
    by (simp add: safetyKeywords_def)
  then show "\<not> checkSafetyKeywords []"
    by (simp add: checkSafetyKeywords_matched matched_keywords_empty_text)
next
  show "onSubmit st [] = st"
    by (simp add: onSubmit_def trim_def)
next
  assume "\<not> checkSafetyKeywords (msg_text m)"
  then show "safety_monitor safetyKeywords now incidents m = (m, incidents)"
    by (simp add: safety_monitor_def checkSafetyKeywords_matched)
qed

theorem safety_monitor_no_match_witness:
  "safety_monitor [''harm myself'', ''suicide''] 5 []
     \<lparr>msg_id = 1, msg_user_id = 7, msg_text = ''see you tomorrow'', is_private = True,
      flagged_for_sos = False, created_at = 5\<rparr>
   = (\<lparr>msg_id = 1, msg_user_id = 7, msg_text = ''see you tomorrow'', is_private = True,
       flagged_for_sos = False, created_at = 5\<rparr>, [])
   \<and> safety_monitor safetyKeywords 5 []
     \<lparr>msg_id = 2, msg_user_id = 7, msg_text = [], is_private = True,
      flagged_for_sos = False, created_at = 5\<rparr>
   = (\<lparr>msg_id = 2, msg_user_id = 7, msg_text = [], is_private = True,
       flagged_for_sos = False, created_at = 5\<rparr>, [])"
proof -
  have a: "matched_keywords [''harm myself'', ''suicide''] ''see you tomorrow'' = []"
    by code_simp
  have b: "[] \<notin> set safetyKeywords"
    by (simp add: safetyKeywords_def)
  show ?thesis
    using a b
      safety_monitor_no_match [of "[''harm myself'', ''suicide'']"
        "\<lparr>msg_id = 1, msg_user_id = 7, msg_text = ''see you tomorrow'', is_private = True,
          flagged_for_sos = False, created_at = 5\<rparr>" 5 "[]"]
      safety_monitor_no_match [of safetyKeywords
        "\<lparr>msg_id = 2, msg_user_id = 7, msg_text = [], is_private = True,
          flagged_for_sos = False, created_at = 5\<rparr>" 5 "[]"]
    by simp
qed

text \<open>For contrast, the matching scenario: the message is flagged and one open incident
  with the matched keyword is created for the sender.\<close>

lemma safety_monitor_match_scenario:
  "safety_monitor [''harm myself'', ''suicide''] 5 []
     \<lparr>msg_id = 1, msg_user_id = 7, msg_text = ''I want to harm myself'', is_private = True,
      flagged_for_sos = False, created_at = 5\<rparr>
   = (\<lparr>msg_id = 1, msg_user_id = 7, msg_text = ''I want to harm myself'', is_private = True,
       flagged_for_sos = True, created_at = 5\<rparr>,
      [\<lparr>inc_student = 7, trigger_keywords = [''harm myself''], inc_status = Open,
        counselor_notified = False, inc_notes = None, inc_created_at = 5\<rparr>])"
  by code_simp

end
